theory Spec2Isabelle
  imports Complex_Main
begin

section \<open>Python values shared by the services\<close>

text \<open>
  Each function is modelled as its body runs once its module is loaded.
  Exceptions are values.  Every function of the source that can raise returns
  \<open>py_error + 'a\<close>, with \<open>Inl\<close> for the exception; a \<open>try ... except Exception\<close> block
  of the source is a case distinction on that result.
\<close>

datatype py_error =
    ValueError
  | NameError string
  | ValidationError
  | HTTPException nat
  | ExternalFailure

text \<open>Instants are microseconds since the epoch, as \<open>datetime\<close> resolves them.\<close>

type_synonym datetime = int

definition hours :: "int \<Rightarrow> int" where
  "hours n = n * 3600000000"

definition minutes :: "int \<Rightarrow> int" where
  "minutes n = n * 60000000"

section \<open>The data model (backend/models.py)\<close>

record alert =
  alert_id :: nat
  alert_type :: string
  title :: string
  message :: string
  affected_area :: "string option"
  severity :: string
  source :: string
  is_active :: bool
  created_at :: datetime
  expires_at :: datetime

section \<open>AlertProcessor.generate_alert_summary (backend/incois\_integration.py)\<close>

text \<open>
  \<open>list.index(x)\<close>: the position of the first element equal to \<open>x\<close>; raises
  \<open>ValueError\<close> when there is none.
\<close>

fun list_index :: "'a list \<Rightarrow> 'a \<Rightarrow> py_error + nat" where
  "list_index [] x = Inl ValueError"
| "list_index (y # ys) x =
     (if y = x then Inr 0
      else case list_index ys x of Inl e \<Rightarrow> Inl e | Inr i \<Rightarrow> Inr (Suc i))"

text \<open>
  A \<open>dict\<close> of counters keeps its keys in insertion order;
  \<open>d[k] = d.get(k, 0) + 1\<close> updates the entry in place or appends a new one.
\<close>

fun dict_incr :: "('k \<times> nat) list \<Rightarrow> 'k \<Rightarrow> ('k \<times> nat) list" where
  "dict_incr [] k = [(k, 1)]"
| "dict_incr ((k', v) # d) k =
     (if k' = k then (k', v + 1) # d else (k', v) # dict_incr d k)"

text \<open>
  \<open>max(iterable, key=f)\<close>: \<open>f\<close> is called on every item in order (also when there is
  only one), an exception of \<open>f\<close> ends the call, and of several items with the largest
  key the first one is returned.  An empty iterable raises \<open>ValueError\<close>.
\<close>

fun max_loop :: "('a \<Rightarrow> py_error + nat) \<Rightarrow> 'a \<Rightarrow> nat \<Rightarrow> 'a list \<Rightarrow> py_error + 'a" where
  "max_loop key best bk [] = Inr best"
| "max_loop key best bk (x # xs) =
     (case key x of
        Inl e \<Rightarrow> Inl e
      | Inr k \<Rightarrow> if bk < k then max_loop key x k xs else max_loop key best bk xs)"

definition py_max :: "('a \<Rightarrow> py_error + nat) \<Rightarrow> 'a list \<Rightarrow> py_error + 'a" where
  "py_max key xs =
     (case xs of
        [] \<Rightarrow> Inl ValueError
      | x # rest \<Rightarrow> (case key x of Inl e \<Rightarrow> Inl e | Inr k \<Rightarrow> max_loop key x k rest))"

definition severity_order :: "string list" where
  "severity_order = [''low'', ''medium'', ''high'', ''critical'']"

record alert_summary =
  total_alerts :: nat
  by_severity :: "(string \<times> nat) list"
  by_type :: "(string \<times> nat) list"
  most_common_type :: "string option"
  highest_severity :: "string option"

text \<open>The \<open>for alert in alerts\<close> loop, threading the two dictionaries.\<close>

fun count_alerts ::
  "alert list \<Rightarrow> (string \<times> nat) list \<times> (string \<times> nat) list
     \<Rightarrow> (string \<times> nat) list \<times> (string \<times> nat) list" where
  "count_alerts [] acc = acc"
| "count_alerts (a # als) (sev, typ) =
     count_alerts als (dict_incr sev (severity a), dict_incr typ (alert_type a))"

definition generate_alert_summary :: "alert list \<Rightarrow> py_error + alert_summary" where
  "generate_alert_summary alerts =
     (if alerts = [] then
        Inr \<lparr>total_alerts = 0, by_severity = [], by_type = [],
             most_common_type = None, highest_severity = None\<rparr>
      else
        let (sev, typ) = count_alerts alerts ([], []) in
        case (if typ \<noteq> [] then map_sum id (\<lambda>kv. Some (fst kv)) (py_max (\<lambda>kv. Inr (snd kv)) typ)
              else Inr None) of
          Inl e \<Rightarrow> Inl e
        | Inr common \<Rightarrow>
            (case (if sev \<noteq> [] then map_sum id Some (py_max (list_index severity_order) (map fst sev))
                   else Inr None) of
               Inl e \<Rightarrow> Inl e
             | Inr highest \<Rightarrow>
                 Inr \<lparr>total_alerts = length alerts, by_severity = sev, by_type = typ,
                      most_common_type = common, highest_severity = highest\<rparr>))"

text \<open>The order the claim names: low < medium < high < critical.\<close>

definition severity_rank :: "string \<Rightarrow> nat" where
  "severity_rank s =
     (if s = ''low'' then 0 else if s = ''medium'' then 1
      else if s = ''high'' then 2 else if s = ''critical'' then 3 else 0)"

text \<open>A concrete alert row for the worked examples.\<close>

definition example_alert :: "nat \<Rightarrow> string \<Rightarrow> string \<Rightarrow> alert" where
  "example_alert n ty sev =
     \<lparr>alert_id = n, alert_type = ty, title = ''Alert'', message = [], affected_area = None,
      severity = sev, source = ''incois'', is_active = True, created_at = 0,
      expires_at = hours 24\<rparr>"

section \<open>AlertService (backend/alert\_service.py)\<close>

text \<open>
  The database session holds the tables as lists of rows, oldest first.  Primary keys come
  from a sequence kept with the table.  \<open>add\<close>, \<open>commit\<close> and \<open>refresh\<close> are taken to
  succeed.  The \<open>User\<close> class of models.py declares no \<open>phone_number\<close>; since
  \<open>_send_notifications\<close> asks \<open>hasattr(user, 'phone_number') and user.phone_number\<close>, a user
  carries an optional phone number, \<open>None\<close> when the attribute is missing or falsy.
\<close>

record user =
  user_id :: nat
  username :: string
  email :: string
  phone_number :: "string option"

record user_alert =
  ua_user_id :: nat
  ua_alert_id :: nat
  is_read :: bool

record hazard_report =
  report_id :: nat
  reporter_id :: nat
  report_title :: string
  description :: string
  hazard_type :: string
  report_severity :: string
  location :: "real \<times> real"
  media_urls :: "string list"
  is_verified :: bool

record database =
  alerts :: "alert list"
  alert_seq :: nat
  users :: "user list"
  user_alerts :: "user_alert list"
  reports :: "hazard_report list"
  report_seq :: nat

text \<open>
  What lies outside the process: the three notification channels and the Redis server.
  A send may fail, which the caller sees as an exception.  Reading an attribute of a user
  row may fail too: \<open>_notify_users\<close> commits before the fanout, the commit expires the rows
  of the session, and every later read of \<open>user.email\<close>, \<open>user.phone_number\<close> or \<open>user.id\<close>
  loads the row again.  Printing is taken to succeed.
\<close>

datatype channel = Email | SMS | Push

datatype user_attr = AttrEmail | AttrPhoneNumber | AttrId

record services =
  channel_fails :: "channel \<Rightarrow> user \<Rightarrow> alert \<Rightarrow> bool"
  read_fails :: "user_attr \<Rightarrow> user \<Rightarrow> bool"
  redis_fails :: bool

text \<open>
  What the process does to the outside, in order.  \<open>Attempt c n\<close> is the call of the
  function of channel \<open>c\<close> for the user with id \<open>n\<close>.
\<close>

datatype event =
    Attempt channel nat
  | ChannelError channel nat
  | NotificationError nat
  | NotifyUsersError
  | Published string
  | PublishError
  | Printed string

text \<open>
  The attribute of the user that a channel function formats into its messages:
  \<open>user.email\<close>, \<open>user.phone_number\<close>, \<open>user.id\<close>.
\<close>

fun printed_attr :: "channel \<Rightarrow> user_attr" where
  "printed_attr Email = AttrEmail"
| "printed_attr SMS = AttrPhoneNumber"
| "printed_attr Push = AttrId"

text \<open>
  The body of the \<open>try\<close> of a channel function: the message is formatted, which reads
  the user's attribute, and the notification is sent.
\<close>

definition channel_send :: "services \<Rightarrow> channel \<Rightarrow> user \<Rightarrow> alert \<Rightarrow> py_error + unit" where
  "channel_send sv c u a =
     (if read_fails sv (printed_attr c) u \<or> channel_fails sv c u a then Inl ExternalFailure
      else Inr ())"

text \<open>
  \<open>_send_email_notification\<close>, \<open>_send_sms_notification\<close> and \<open>_send_push_notification\<close>
  have the same shape: the body inside \<open>try\<close>, and \<open>except Exception\<close> printing a message
  that reads the same attribute of the user again.  When that read fails the handler
  itself raises, and the exception leaves the function.
\<close>

definition send_channel_notification ::
  "services \<Rightarrow> channel \<Rightarrow> user \<Rightarrow> alert \<Rightarrow> event list \<Rightarrow> (py_error + unit) \<times> event list" where
  "send_channel_notification sv c u a evs =
     (case channel_send sv c u a of
        Inl e \<Rightarrow>
          (if read_fails sv (printed_attr c) u
           then (Inl ExternalFailure, evs @ [Attempt c (user_id u)])
           else (Inr (), evs @ [Attempt c (user_id u), ChannelError c (user_id u)]))
      | Inr _ \<Rightarrow> (Inr (), evs @ [Attempt c (user_id u)]))"

definition send_email_notification ::
  "services \<Rightarrow> user \<Rightarrow> alert \<Rightarrow> event list \<Rightarrow> (py_error + unit) \<times> event list" where
  "send_email_notification sv = send_channel_notification sv Email"

definition send_sms_notification ::
  "services \<Rightarrow> user \<Rightarrow> alert \<Rightarrow> event list \<Rightarrow> (py_error + unit) \<times> event list" where
  "send_sms_notification sv = send_channel_notification sv SMS"

definition send_push_notification ::
  "services \<Rightarrow> user \<Rightarrow> alert \<Rightarrow> event list \<Rightarrow> (py_error + unit) \<times> event list" where
  "send_push_notification sv = send_channel_notification sv Push"

text \<open>
  The body of the one \<open>try\<close> that \<open>_send_notifications\<close> has for a user: email, then the test
  \<open>hasattr(user, 'phone_number') and user.phone_number\<close> and SMS when it holds, then push.
  An exception of any of these skips the rest.  \<open>hasattr\<close> hides a missing attribute only
  (\<open>phone_number u = None\<close>); a read that fails otherwise raises out of the test.
\<close>

definition notify_one ::
  "services \<Rightarrow> alert \<Rightarrow> user \<Rightarrow> event list \<Rightarrow> (py_error + unit) \<times> event list" where
  "notify_one sv a u evs =
     (case send_email_notification sv u a evs of
        (Inl e, evs1) \<Rightarrow> (Inl e, evs1)
      | (Inr _, evs1) \<Rightarrow>
          (if read_fails sv AttrPhoneNumber u then (Inl ExternalFailure, evs1)
           else
             case (if phone_number u \<noteq> None then send_sms_notification sv u a evs1
                   else (Inr (), evs1)) of
               (Inl e, evs2) \<Rightarrow> (Inl e, evs2)
             | (Inr _, evs2) \<Rightarrow> send_push_notification sv u a evs2))"

text \<open>
  The loop of \<open>_send_notifications\<close>.  The handler of a user prints a message that reads
  \<open>user.id\<close>; when that read fails the exception leaves the loop and the users after are
  not served.
\<close>

fun send_notifications ::
  "services \<Rightarrow> alert \<Rightarrow> user list \<Rightarrow> event list \<Rightarrow> (py_error + unit) \<times> event list" where
  "send_notifications sv a [] evs = (Inr (), evs)"
| "send_notifications sv a (u # us) evs =
     (case notify_one sv a u evs of
        (Inl e, evs1) \<Rightarrow>
          (if read_fails sv AttrId u then (Inl ExternalFailure, evs1)
           else send_notifications sv a us (evs1 @ [NotificationError (user_id u)]))
      | (Inr _, evs1) \<Rightarrow> send_notifications sv a us evs1)"

text \<open>
  \<open>_notify_users\<close>: one \<open>UserAlert(is_read=False)\<close> per user (the rows are fresh from the
  query here), committed, then the fanout; any exception is printed and not raised.
\<close>

definition notify_users ::
  "services \<Rightarrow> alert \<Rightarrow> database \<Rightarrow> event list \<Rightarrow> database \<times> event list" where
  "notify_users sv a db evs =
     (let us = users db;
          db1 = db\<lparr>user_alerts := user_alerts db
                   @ map (\<lambda>u. \<lparr>ua_user_id = user_id u, ua_alert_id = alert_id a, is_read = False\<rparr>) us\<rparr>
      in case send_notifications sv a us evs of
           (Inl e, evs1) \<Rightarrow> (db1, evs1 @ [NotifyUsersError])
         | (Inr _, evs1) \<Rightarrow> (db1, evs1))"

definition publish_alert :: "services \<Rightarrow> alert \<Rightarrow> event list \<Rightarrow> event list" where
  "publish_alert sv a evs =
     (if redis_fails sv then evs @ [PublishError] else evs @ [Published ''new_alert''])"

text \<open>
  \<open>create_alert\<close> reads the clock twice, \<open>created_at=datetime.utcnow()\<close> and then
  \<open>expires_at=datetime.utcnow() + timedelta(hours=24)\<close>: \<open>t_created\<close> and \<open>t_expiry\<close> are the
  two readings, in that order.
\<close>

definition create_alert ::
  "services \<Rightarrow> datetime \<Rightarrow> datetime \<Rightarrow> string \<Rightarrow> string \<Rightarrow> string \<Rightarrow> string \<Rightarrow> string option
     \<Rightarrow> string \<Rightarrow> database \<Rightarrow> alert \<times> database \<times> event list" where
  "create_alert sv t_created t_expiry a_type a_title a_message a_severity a_area a_source db =
     (let a = \<lparr>alert_id = Suc (alert_seq db), alert_type = a_type, title = a_title,
               message = a_message, affected_area = a_area, severity = a_severity,
               source = a_source, is_active = True, created_at = t_created,
               expires_at = t_expiry + hours 24\<rparr>;
          db1 = db\<lparr>alerts := alerts db @ [a], alert_seq := Suc (alert_seq db)\<rparr>;
          (db2, evs1) = notify_users sv a db1 [];
          evs2 = publish_alert sv a evs1
      in (a, db2, evs2))"

text \<open>
  \<open>mark_alert_read\<close>: \<open>.first()\<close> yields the first row for the user and the alert, if any;
  only that row is written.
\<close>

fun mark_first :: "nat \<Rightarrow> nat \<Rightarrow> user_alert list \<Rightarrow> user_alert list" where
  "mark_first uid aid [] = []"
| "mark_first uid aid (r # rs) =
     (if ua_user_id r = uid \<and> ua_alert_id r = aid then r\<lparr>is_read := True\<rparr> # rs
      else r # mark_first uid aid rs)"

definition mark_alert_read :: "nat \<Rightarrow> nat \<Rightarrow> database \<Rightarrow> database" where
  "mark_alert_read uid aid db =
     (case find (\<lambda>r. ua_user_id r = uid \<and> ua_alert_id r = aid) (user_alerts db) of
        None \<Rightarrow> db
      | Some r \<Rightarrow> db\<lparr>user_alerts := mark_first uid aid (user_alerts db)\<rparr>)"

text \<open>\<open>cleanup_expired_alerts\<close>, with \<open>now\<close> the reading of the clock in the query.\<close>

definition cleanup_expired_alerts :: "datetime \<Rightarrow> database \<Rightarrow> database" where
  "cleanup_expired_alerts now db =
     db\<lparr>alerts := map (\<lambda>a. if expires_at a < now \<and> is_active a then a\<lparr>is_active := False\<rparr> else a)
                      (alerts db)\<rparr>"

subsection \<open>generate\_alert\_from\_report\<close>

text \<open>
  A name that a function body reads without binding it is looked up among the function's
  locals, then the module's globals (then the builtins, which have no \<open>db\<close>); a miss raises
  \<open>NameError\<close>.  These are the names bound at the top level of alert\_service.py.
\<close>

definition alert_service_globals :: "string list" where
  "alert_service_globals =
     [''asyncio'', ''json'', ''datetime'', ''timedelta'', ''List'', ''Dict'', ''Any'', ''Optional'',
      ''Session'', ''text'', ''redis'', ''Client'', ''smtplib'', ''MIMEText'', ''MIMEMultipart'',
      ''get_db'', ''Alert'', ''User'', ''HazardReport'', ''UserAlert'', ''AlertResponse'',
      ''AlertService'', ''periodic_alert_cleanup'', ''process_report_alerts'']"

definition load_name :: "string list \<Rightarrow> string list \<Rightarrow> string \<Rightarrow> py_error + unit" where
  "load_name locals globals n =
     (if n \<in> set locals \<or> n \<in> set globals then Inr () else Inl (NameError n))"

text \<open>\<open>str.title()\<close> on ASCII text: each run of letters starts upper case and goes on lower case.\<close>

definition upper_letters :: string where
  "upper_letters = ''ABCDEFGHIJKLMNOPQRSTUVWXYZ''"

definition lower_letters :: string where
  "lower_letters = ''abcdefghijklmnopqrstuvwxyz''"

definition lower_char :: "char \<Rightarrow> char" where
  "lower_char c = (case map_of (zip upper_letters lower_letters) c of Some d \<Rightarrow> d | None \<Rightarrow> c)"

definition upper_char :: "char \<Rightarrow> char" where
  "upper_char c = (case map_of (zip lower_letters upper_letters) c of Some d \<Rightarrow> d | None \<Rightarrow> c)"

definition is_letter :: "char \<Rightarrow> bool" where
  "is_letter c = (c \<in> set upper_letters \<or> c \<in> set lower_letters)"

fun title_from :: "bool \<Rightarrow> string \<Rightarrow> string" where
  "title_from inside [] = []"
| "title_from inside (c # cs) =
     (if is_letter c then (if inside then lower_char c else upper_char c) # title_from True cs
      else c # title_from False cs)"

definition py_title :: "string \<Rightarrow> string" where
  "py_title s = title_from False s"

definition alert_templates :: "(string \<times> string \<times> string \<times> string) list" where
  "alert_templates =
     [(''tsunami'', ''Tsunami Alert'',
       ''A tsunami alert has been issued for your area. Please move to higher ground immediately.'',
       ''critical''),
      (''storm_surge'', ''Storm Surge Warning'',
       ''Storm surge conditions are expected. Avoid coastal areas and follow evacuation orders.'',
       ''high''),
      (''high_waves'', ''High Wave Warning'',
       ''Dangerous wave conditions are expected. Stay away from beaches and coastal areas.'',
       ''medium''),
      (''flooding'', ''Coastal Flooding Alert'',
       ''Coastal flooding is expected. Avoid low-lying areas and follow local authorities.'',
       ''high'')]"

definition template_for :: "string \<Rightarrow> string \<times> string \<times> string" where
  "template_for ht =
     (case map_of alert_templates ht of
        Some t \<Rightarrow> t
      | None \<Rightarrow> (py_title ht @ '' Alert'',
                 ''A '' @ ht @ '' has been reported in your area.'', ''medium''))"

text \<open>
  The function never binds \<open>db\<close> (its siblings start with \<open>db = next(get_db())\<close>), so the
  query \<open>db.query(Alert)\<close> first has to find the name.  \<open>now\<close> is the clock reading in the
  query, \<open>t_created\<close> and \<open>t_expiry\<close> those of \<open>create_alert\<close>.  The whole body is inside
  \<open>try\<close>, whose handler prints and returns \<open>None\<close>.
\<close>

definition generate_alert_from_report ::
  "services \<Rightarrow> datetime \<Rightarrow> datetime \<Rightarrow> datetime \<Rightarrow> hazard_report \<Rightarrow> database
     \<Rightarrow> alert option \<times> database \<times> event list" where
  "generate_alert_from_report sv now t_created t_expiry report db =
     (if report_severity report \<notin> set [''high'', ''critical''] then (None, db, [])
      else
        case load_name [''self'', ''report''] alert_service_globals ''db'' of
          Inl e \<Rightarrow> (None, db, [Printed ''Error generating alert from report''])
        | Inr _ \<Rightarrow>
            (case find (\<lambda>a. alert_type a = hazard_type report \<and> is_active a
                              \<and> now - hours 1 \<le> created_at a) (alerts db) of
               Some existing_alert \<Rightarrow> (Some existing_alert, db, [])
             | None \<Rightarrow>
                 (let (t_title, t_message, t_priority) = template_for (hazard_type report);
                      (a, db1, evs) =
                        create_alert sv t_created t_expiry (hazard_type report) t_title
                          (t_message @ '' Location: '' @ report_title report)
                          (report_severity report) None ''crowdsourced'' db
                  in (Some a, db1, evs))))"

subsection \<open>INCOISIntegration.store\_alerts (backend/incois\_integration.py)\<close>

text \<open>
  An item as \<open>_process_incois_data\<close> builds it.  \<open>_notify_affected_users\<close> names
  \<open>UserAlert\<close>, which incois\_integration.py does not import: with at least one user the loop
  raises \<open>NameError\<close> at its first row, before anything is added, and the handler prints it;
  with no user it goes on to the push notification.  Either way no \<open>user_alerts\<close> row is
  written.
\<close>

record alert_data =
  ad_alert_type :: string
  ad_title :: string
  ad_message :: string
  ad_severity :: string
  ad_source :: string
  ad_affected_area :: "string option"
  ad_created_at :: datetime
  ad_expires_at :: datetime

definition incois_globals :: "string list" where
  "incois_globals =
     [''httpx'', ''asyncio'', ''datetime'', ''timedelta'', ''List'', ''Dict'', ''Any'', ''Optional'',
      ''Session'', ''text'', ''json'', ''os'', ''load_dotenv'', ''get_db'', ''Alert'', ''User'',
      ''HazardReport'', ''AlertResponse'', ''INCOISIntegration'', ''AlertProcessor'',
      ''periodic_incois_sync'', ''get_incois_alerts'', ''trigger_incois_sync'', ''get_alert_summary'']"

definition notify_affected_users :: "alert \<Rightarrow> database \<Rightarrow> event list \<Rightarrow> database \<times> event list" where
  "notify_affected_users a db evs =
     (if users db = [] then (db, evs @ [Printed ''Sending alert notification''])
      else case load_name [''self'', ''alert'', ''db'', ''users'', ''user''] incois_globals ''UserAlert'' of
             Inl e \<Rightarrow> (db, evs @ [NotifyUsersError])
           | Inr _ \<Rightarrow>
               (db\<lparr>user_alerts := user_alerts db
                      @ map (\<lambda>u. \<lparr>ua_user_id = user_id u, ua_alert_id = alert_id a, is_read = False\<rparr>)
                          (users db)\<rparr>,
                evs @ [Printed ''Sending alert notification'']))"

fun store_alerts :: "alert_data list \<Rightarrow> database \<Rightarrow> event list \<Rightarrow> database \<times> event list" where
  "store_alerts [] db evs = (db, evs)"
| "store_alerts (d # ds) db evs =
     (case find (\<lambda>a. alert_type a = ad_alert_type d \<and> title a = ad_title d \<and> source a = ''incois'')
             (alerts db) of
        Some existing_alert \<Rightarrow> store_alerts ds db evs
      | None \<Rightarrow>
          (let a = \<lparr>alert_id = Suc (alert_seq db), alert_type = ad_alert_type d,
                    title = ad_title d, message = ad_message d,
                    affected_area = ad_affected_area d, severity = ad_severity d,
                    source = ad_source d, is_active = True, created_at = ad_created_at d,
                    expires_at = ad_expires_at d\<rparr>;
               db1 = db\<lparr>alerts := alerts db @ [a], alert_seq := Suc (alert_seq db)\<rparr>;
               (db2, evs1) = notify_affected_users a db1 evs
           in store_alerts ds db2 evs1))"

subsection \<open>The alert table over time\<close>

text \<open>
  One step of the system is one call of an operation that writes to the database:
  alert creation (directly or from a report), the INCOIS store, the cleanup sweep, and
  the read receipt.
\<close>

inductive alert_step :: "database \<Rightarrow> database \<Rightarrow> bool" where
  step_create:
    "alert_step db (fst (snd (create_alert sv t1 t2 ty ti me se ar so db)))"
| step_report:
    "alert_step db (fst (snd (generate_alert_from_report sv now t1 t2 report db)))"
| step_store:
    "alert_step db (fst (store_alerts ds db evs))"
| step_cleanup:
    "alert_step db (cleanup_expired_alerts now db)"
| step_read:
    "alert_step db (mark_alert_read uid aid db)"

definition alert_run :: "database \<Rightarrow> database \<Rightarrow> bool" where
  "alert_run = alert_step\<^sup>*\<^sup>*"

text \<open>
  \<open>kept xs ys\<close>: every row of \<open>xs\<close> is still in \<open>ys\<close> at its place, either as it was or
  deactivated; \<open>ys\<close> may have more rows at the end.
\<close>

definition kept :: "alert list \<Rightarrow> alert list \<Rightarrow> bool" where
  "kept xs ys \<longleftrightarrow>
     length xs \<le> length ys \<and>
     (\<forall>i < length xs. ys ! i = xs ! i \<or> ys ! i = (xs ! i)\<lparr>is_active := False\<rparr>)"

subsection \<open>Reading the event trace\<close>





definition all_up :: services where
  "all_up =
     \<lparr>channel_fails = (\<lambda>c u a. False), read_fails = (\<lambda>t u. False), redis_fails = False\<rparr>"



definition empty_database :: database where
  "empty_database =
     \<lparr>alerts = [], alert_seq = 0, users = [], user_alerts = [], reports = [], report_seq = 0\<rparr>"

definition tsunami_report :: hazard_report where
  "tsunami_report =
     \<lparr>report_id = 1, reporter_id = 1, report_title = ''Marina Beach'',
      description = ''Water receding fast'', hazard_type = ''tsunami'',
      report_severity = ''high'', location = (80.28, 13.05), media_urls = [],
      is_verified = True\<rparr>"

text \<open>
  A table with one active crowdsourced tsunami alert created at time 0.
\<close>

definition tsunami_alert :: alert where
  "tsunami_alert =
     \<lparr>alert_id = 1, alert_type = ''tsunami'', title = ''Tsunami Alert'',
      message = ''A tsunami alert has been issued for your area.'', affected_area = None,
      severity = ''high'', source = ''crowdsourced'', is_active = True, created_at = 0,
      expires_at = hours 24\<rparr>"

definition tsunami_database :: database where
  "tsunami_database = empty_database\<lparr>alerts := [tsunami_alert], alert_seq := 1\<rparr>"

section \<open>Text analysis (nlp-engine/processors.py)\<close>

text \<open>
  Text is ASCII.  \<open>str.lower\<close>, \<open>\w\<close>, \<open>\s\<close> and \<open>\b\<close> are those of Python's \<open>str\<close> and
  \<open>re\<close> on ASCII characters.  Scores are Python floats; the model computes them as real
  numbers.
\<close>

definition lower :: "string \<Rightarrow> string" where
  "lower s = map lower_char s"

definition is_word_char :: "char \<Rightarrow> bool" where
  "is_word_char c = (c \<in> set upper_letters \<or> c \<in> set lower_letters \<or> c \<in> set ''0123456789_'')"

definition is_space :: "char \<Rightarrow> bool" where
  "is_space c =
     (c \<in> set [CHR 0x09, CHR 0x0A, CHR 0x0B, CHR 0x0C, CHR 0x0D,
               CHR 0x1C, CHR 0x1D, CHR 0x1E, CHR 0x1F, CHR 0x20])"

definition starts_with :: "string \<Rightarrow> string \<Rightarrow> bool" where
  "starts_with w t = (take (length w) t = w)"

text \<open>\<open>needle in haystack\<close> for strings.\<close>

fun contains :: "string \<Rightarrow> string \<Rightarrow> bool" where
  "contains w [] = (w = [])"
| "contains w (c # cs) = (starts_with w (c # cs) \<or> contains w cs)"

subsection \<open>The regular expressions of the source\<close>

text \<open>
  The hazard patterns are built from three items only: the word boundary \<open>\b\<close>, a group of
  alternative literals \<open>(a|b|c)\<close>, and \<open>.*\<close>.  \<open>re_search p text\<close> is
  \<open>re.search(p, text, re.IGNORECASE)\<close> being a match, which is also
  \<open>re.findall(p, text, re.IGNORECASE)\<close> being non-empty: some position where the items
  match in sequence.  \<open>prev\<close> is the character before the current position, if any.
\<close>

datatype re_item = WordBoundary | Group "string list" | AnyStar

type_synonym pattern = "re_item list"

definition at_boundary :: "char option \<Rightarrow> string \<Rightarrow> bool" where
  "at_boundary prev rest =
     ((case prev of None \<Rightarrow> False | Some c \<Rightarrow> is_word_char c)
      \<noteq> (case rest of [] \<Rightarrow> False | d # ds \<Rightarrow> is_word_char d))"

fun starts_with_ci :: "string \<Rightarrow> string \<Rightarrow> bool" where
  "starts_with_ci [] t = True"
| "starts_with_ci (c # cs) [] = False"
| "starts_with_ci (c # cs) (d # ds) =
     (if lower_char c = lower_char d then starts_with_ci cs ds else False)"

definition prev_after :: "char option \<Rightarrow> nat \<Rightarrow> string \<Rightarrow> char option" where
  "prev_after prev n t = (if n = 0 \<or> t = [] then prev else Some (last (take n t)))"

fun match_here :: "pattern \<Rightarrow> char option \<Rightarrow> string \<Rightarrow> bool" where
  "match_here [] prev rest = True"
| "match_here (WordBoundary # ps) prev rest =
     (if at_boundary prev rest then match_here ps prev rest else False)"
| "match_here (Group ws # ps) prev rest =
     list_ex (\<lambda>w. if starts_with_ci w rest
                  then match_here ps (prev_after prev (length w) rest) (drop (length w) rest)
                  else False) ws"
| "match_here (AnyStar # ps) prev [] = match_here ps prev []"
| "match_here (AnyStar # ps) prev (c # cs) =
     (if match_here ps prev (c # cs) then True
      else if c = CHR 0x0A then False
      else match_here (AnyStar # ps) (Some c) cs)"

fun search_from :: "pattern \<Rightarrow> char option \<Rightarrow> string \<Rightarrow> bool" where
  "search_from p prev [] = match_here p prev []"
| "search_from p prev (c # cs) =
     (if match_here p prev (c # cs) then True else search_from p (Some c) cs)"

definition re_search :: "pattern \<Rightarrow> string \<Rightarrow> bool" where
  "re_search p text = search_from p None text"

subsection \<open>SocialMediaProcessor.preprocess\_text\<close>

text \<open>\<open>re.sub(r'http\S+|www\S+|https\S+', '', text)\<close>, left to right.\<close>

definition url_at :: "string \<Rightarrow> bool" where
  "url_at t =
     ((starts_with ''http'' t \<and> (case drop 4 t of [] \<Rightarrow> False | c # cs \<Rightarrow> \<not> is_space c))
      \<or> (starts_with ''www'' t \<and> (case drop 3 t of [] \<Rightarrow> False | c # cs \<Rightarrow> \<not> is_space c)))"

function remove_urls :: "string \<Rightarrow> string" where
  "remove_urls [] = []"
| "remove_urls (c # cs) =
     (if url_at (c # cs) then remove_urls (dropWhile (\<lambda>d. \<not> is_space d) cs)
      else c # remove_urls cs)"
  by pat_completeness auto
termination
  by (relation "measure length") (auto simp: length_dropWhile_le less_Suc_eq_le)

text \<open>\<open>re.sub(r'@\w+|#\w+', '', text)\<close>.\<close>

function remove_mentions :: "string \<Rightarrow> string" where
  "remove_mentions [] = []"
| "remove_mentions (c # cs) =
     (if (c = CHR ''@'' \<or> c = CHR ''#'') \<and> (case cs of [] \<Rightarrow> False | d # ds \<Rightarrow> is_word_char d)
      then remove_mentions (dropWhile is_word_char cs)
      else c # remove_mentions cs)"
  by pat_completeness auto
termination
  by (relation "measure length") (auto simp: length_dropWhile_le less_Suc_eq_le)

text \<open>\<open>re.sub(r'\s+', ' ', text).strip()\<close>.\<close>

function collapse_spaces :: "string \<Rightarrow> string" where
  "collapse_spaces [] = []"
| "collapse_spaces (c # cs) =
     (if is_space c then CHR '' '' # collapse_spaces (dropWhile is_space cs)
      else c # collapse_spaces cs)"
  by pat_completeness auto
termination
  by (relation "measure length") (auto simp: length_dropWhile_le less_Suc_eq_le)

definition strip :: "string \<Rightarrow> string" where
  "strip s = rev (dropWhile is_space (rev (dropWhile is_space s)))"

text \<open>\<open>re.sub(r'[^\w\s.,!?]', '', text)\<close>.\<close>

definition remove_special :: "string \<Rightarrow> string" where
  "remove_special s = filter (\<lambda>c. is_word_char c \<or> is_space c \<or> c \<in> set ''.,!?'') s"

definition preprocess_text :: "string \<Rightarrow> string" where
  "preprocess_text text =
     (if text = [] then []
      else remove_special (strip (collapse_spaces (remove_mentions (remove_urls (lower text))))))"

subsection \<open>HazardAnalyzer\<close>

definition hazard_patterns :: "(string \<times> pattern list) list" where
  "hazard_patterns =
     [(''tsunami'',
       [[WordBoundary, Group [''tsunami'', ''tidal wave'', ''seismic wave''], WordBoundary],
        [WordBoundary, Group [''wave height'', ''wave size''], WordBoundary, AnyStar,
         WordBoundary, Group [''high'', ''large'', ''big'', ''massive''], WordBoundary],
        [WordBoundary, Group [''earthquake'', ''seismic''], AnyStar,
         WordBoundary, Group [''ocean'', ''sea'', ''coastal''], WordBoundary]]),
      (''storm_surge'',
       [[WordBoundary, Group [''storm surge'', ''storm tide''], WordBoundary],
        [WordBoundary, Group [''coastal flooding'', ''shore flooding''], WordBoundary],
        [WordBoundary, Group [''water level'', ''sea level''], AnyStar,
         WordBoundary, Group [''rising'', ''increasing'', ''high''], WordBoundary]]),
      (''high_waves'',
       [[WordBoundary, Group [''high waves'', ''big waves'', ''rough seas''], WordBoundary],
        [WordBoundary, Group [''wave height'', ''wave size''], AnyStar,
         WordBoundary, Group [''high'', ''large'', ''big''], WordBoundary],
        [WordBoundary, Group [''dangerous'', ''hazardous''], AnyStar,
         WordBoundary, Group [''waves'', ''seas''], WordBoundary]]),
      (''flooding'',
       [[WordBoundary, Group [''flood'', ''flooding'', ''inundation''], WordBoundary],
        [WordBoundary, Group [''water level'', ''water rising''], WordBoundary],
        [WordBoundary, Group [''submerged'', ''underwater'', ''waterlogged''], WordBoundary]]),
      (''coastal_current'',
       [[WordBoundary, Group [''current'', ''rip current'', ''undertow''], WordBoundary],
        [WordBoundary, Group [''strong current'', ''dangerous current''], WordBoundary],
        [WordBoundary, Group [''swimming'', ''drowning''], AnyStar,
         WordBoundary, Group [''current'', ''undertow''], WordBoundary]])]"

definition general_keywords :: "string list" where
  "general_keywords = [''hazard'', ''danger'', ''warning'', ''alert'', ''emergency'', ''disaster'']"

definition urgency_keywords :: "string list" where
  "urgency_keywords = [''urgent'', ''immediate'', ''emergency'', ''critical'', ''warning'']"

text \<open>
  \<open>extract_hazard_keywords\<close> appends the hazard type once per matching pattern and
  \<open>'general_hazard'\<close> once per general keyword found, then returns \<open>list(set(...))\<close>: the
  distinct tags, in an order Python does not fix.
\<close>

definition extract_hazard_keywords :: "string \<Rightarrow> string list" where
  "extract_hazard_keywords text =
     remdups
       (concat (map (\<lambda>(htype, patterns).
                   map (\<lambda>p. htype) (filter (\<lambda>p. re_search p text) patterns))
                 hazard_patterns)
        @ map (\<lambda>k. ''general_hazard'') (filter (\<lambda>k. contains k (lower text)) general_keywords))"

text \<open>
  Modelled from the spec: the sentiment library.  \<open>calculate_sentiment\<close> returns
  \<open>self.processor.sentiment_analyzer.polarity_scores(text)['compound']\<close>, and
  \<open>SentimentIntensityAnalyzer\<close> belongs to the vaderSentiment package, whose code is not in
  the repository.  The spec describes what it returns as a compound polarity score in
  [-1, 1] from a standard lexicon and rule based sentiment method: a compound score is a
  real number of that interval, and an analyzer gives one to every text.
\<close>

typedef compound_score = "{x :: real. - 1 \<le> x \<and> x \<le> 1}"
  by (rule exI [of _ 0]) simp

text \<open>
  Modelled from the spec: \<open>polarity_scores(text)['compound']\<close> of an analyzer, as the
  number that \<open>calculate_sentiment\<close> receives.
\<close>

definition polarity_compound :: "(string \<Rightarrow> compound_score) \<Rightarrow> string \<Rightarrow> real" where
  "polarity_compound analyzer text = Rep_compound_score (analyzer text)"

text \<open>
  In the functions of the repository \<open>vader\<close> stands for the call
  \<open>polarity_scores(text)['compound']\<close>; they are defined for any such function.
\<close>

definition calculate_sentiment :: "(string \<Rightarrow> real) \<Rightarrow> string \<Rightarrow> real" where
  "calculate_sentiment vader text = (if text = [] then 0 else vader text)"

text \<open>
  The pattern loops of \<open>calculate_hazard_probability\<close>.  The inner \<open>for pattern in patterns\<close>
  adds 0.2 at the first pattern that matches and leaves the loop (\<open>break\<close>); the outer
  \<open>for hazard_type, patterns in ...\<close> goes on with the next hazard type.
\<close>

fun pattern_loop :: "pattern list \<Rightarrow> string \<Rightarrow> real \<Rightarrow> real" where
  "pattern_loop [] text probability = probability"
| "pattern_loop (p # ps) text probability =
     (if re_search p text then probability + 0.2 else pattern_loop ps text probability)"

fun pattern_matching :: "(string \<times> pattern list) list \<Rightarrow> string \<Rightarrow> real \<Rightarrow> real" where
  "pattern_matching [] text probability = probability"
| "pattern_matching ((htype, patterns) # rest) text probability =
     pattern_matching rest text (pattern_loop patterns text probability)"

definition urgency_count :: "string \<Rightarrow> nat" where
  "urgency_count text = length (filter (\<lambda>keyword. contains keyword (lower text)) urgency_keywords)"

definition calculate_hazard_probability :: "(string \<Rightarrow> real) \<Rightarrow> string \<Rightarrow> string list \<Rightarrow> real" where
  "calculate_hazard_probability vader text hazard_keywords =
     (if text = [] then 0
      else
        let p0 = (if hazard_keywords \<noteq> [] then 0 + 0.3 else 0);
            p1 = pattern_matching hazard_patterns text p0;
            p2 = p1 + min (real (urgency_count text) * 0.1) 0.3;
            sentiment = calculate_sentiment vader text;
            p3 = (if sentiment < - 0.1 then p2 + 0.2 else p2)
        in min p3 1.0)"

text \<open>The number of hazard types with at least one matching pattern.\<close>

definition matched_groups :: "string \<Rightarrow> nat" where
  "matched_groups text =
     length (filter (\<lambda>(htype, patterns). list_ex (\<lambda>p. re_search p text) patterns)
               hazard_patterns)"

section \<open>Ingestion (nlp-engine/main.py)\<close>

text \<open>
  A collected post is a dictionary; every collector sets \<open>platform\<close>, \<open>post_id\<close> and
  \<open>content\<close>, the other keys are read with \<open>.get\<close>.  The store is the
  \<open>social_media_posts\<close> table.
\<close>

record post_data =
  pd_platform :: string
  pd_post_id :: string
  pd_content :: string
  pd_author :: "string option"
  pd_location :: "(real \<times> real) option"
  pd_engagement_metrics :: "(string \<times> nat) list option"

record social_media_post =
  platform :: string
  post_id :: string
  content :: string
  author :: "string option"
  post_location :: "(real \<times> real) option"
  hazard_keywords :: "string list"
  sentiment_score :: real
  hazard_probability :: real
  engagement_metrics :: "(string \<times> nat) list"

definition analyze_post :: "(string \<Rightarrow> real) \<Rightarrow> post_data \<Rightarrow> social_media_post" where
  "analyze_post vader d =
     (let processed_text = preprocess_text (pd_content d);
          keywords = extract_hazard_keywords processed_text
      in \<lparr>platform = pd_platform d, post_id = pd_post_id d, content = pd_content d,
          author = pd_author d, post_location = pd_location d,
          hazard_keywords = keywords,
          sentiment_score = calculate_sentiment vader processed_text,
          hazard_probability = calculate_hazard_probability vader processed_text keywords,
          engagement_metrics = (case pd_engagement_metrics d of None \<Rightarrow> [] | Some m \<Rightarrow> m)\<rparr>)"

text \<open>
  \<open>process_single_post\<close>: the row is looked up by platform and post id first; a new post is
  analysed and stored only when its hazard probability is above 0.2, and then published.
  A failing publish is printed by the handler; the row is committed before it.
\<close>

definition process_single_post ::
  "(string \<Rightarrow> real) \<Rightarrow> bool \<Rightarrow> post_data \<Rightarrow> social_media_post list
     \<Rightarrow> social_media_post list \<times> event list" where
  "process_single_post vader redis_down d store =
     (case find (\<lambda>p. platform p = pd_platform d \<and> post_id p = pd_post_id d) store of
        Some existing_post \<Rightarrow> (store, [])
      | None \<Rightarrow>
          (let social_post = analyze_post vader d in
           if hazard_probability social_post > 0.2 then
             (store @ [social_post],
              if redis_down then [Printed ''Error processing post'']
              else [Published ''new_social_post''])
           else (store, [])))"

text \<open>The rows of the store for a post's platform and post id.\<close>

definition stored_for :: "post_data \<Rightarrow> social_media_post list \<Rightarrow> social_media_post list" where
  "stored_for d store = filter (\<lambda>p. platform p = pd_platform d \<and> post_id p = pd_post_id d) store"

text \<open>Posts and a score function for the worked examples.\<close>

definition tsunami_post :: post_data where
  "tsunami_post =
     \<lparr>pd_platform = ''twitter'', pd_post_id = ''tweet_001'',
      pd_content = ''Tsunami warning issued for coastal areas. Evacuate immediately!'',
      pd_author = Some ''user1'', pd_location = None, pd_engagement_metrics = None\<rparr>"

definition beach_post :: post_data where
  "beach_post =
     \<lparr>pd_platform = ''twitter'', pd_post_id = ''tweet_002'',
      pd_content = ''Beautiful sunny day at the beach. Perfect for swimming.'',
      pd_author = Some ''user2'', pd_location = None, pd_engagement_metrics = None\<rparr>"

definition neutral_vader :: "string \<Rightarrow> real" where
  "neutral_vader text = 0"

section \<open>Report creation (backend/main.py)\<close>




subsection \<open>The response model (backend/schemas.py)\<close>






subsection \<open>create\_hazard\_report\<close>



section \<open>Properties of the alert summary\<close>

lemma list_index_severity_order:
  "s \<in> set severity_order \<Longrightarrow> list_index severity_order s = Inr (severity_rank s)"
  by (auto simp: severity_order_def severity_rank_def)

lemma list_index_absent: "x \<notin> set xs \<Longrightarrow> list_index xs x = Inl ValueError"
  by (induction xs) auto

lemma list_index_error: "list_index xs x = Inl e \<Longrightarrow> e = ValueError"
  by (induction xs arbitrary: e) (auto split: if_splits sum.splits)

lemma fst_dict_incr: "set (map fst (dict_incr d k)) = insert k (set (map fst d))"
  by (induction d k rule: dict_incr.induct) auto

lemma dict_incr_not_Nil: "dict_incr d k \<noteq> []"
  by (cases d) (auto split: if_splits)

lemma count_alerts_keys:
  "count_alerts als (bs, bt) = (bs', bt') \<Longrightarrow>
     set (map fst bs') = set (map fst bs) \<union> severity ` set als \<and>
     set (map fst bt') = set (map fst bt) \<union> alert_type ` set als"
proof (induction als arbitrary: bs bt)
  case Nil
  then show ?case by simp
next
  case (Cons a als)
  from Cons.prems
  have "count_alerts als (dict_incr bs (severity a), dict_incr bt (alert_type a)) = (bs', bt')"
    by simp
  from Cons.IH [OF this] show ?case
    by (auto simp: fst_dict_incr simp del: set_map)
qed

lemma max_loop_total:
  assumes "\<forall>x \<in> set xs. \<exists>k. key x = Inr k" and "key best = Inr bk"
  shows "\<exists>m km. max_loop key best bk xs = Inr m \<and> m \<in> insert best (set xs) \<and> key m = Inr km
           \<and> bk \<le> km \<and> (\<forall>x \<in> set xs. \<forall>k. key x = Inr k \<longrightarrow> k \<le> km)"
  using assms
proof (induction xs arbitrary: best bk)
  case Nil
  then show ?case by simp
next
  case (Cons x xs)
  then obtain k where k: "key x = Inr k" by auto
  show ?case
  proof (cases "bk < k")
    case True
    from Cons.IH [of x k] Cons.prems k
    obtain m km where "max_loop key x k xs = Inr m" "m \<in> insert x (set xs)" "key m = Inr km"
      "k \<le> km" "\<forall>y \<in> set xs. \<forall>j. key y = Inr j \<longrightarrow> j \<le> km"
      by auto
    with True k show ?thesis by auto
  next
    case False
    from Cons.IH [of best bk] Cons.prems
    obtain m km where "max_loop key best bk xs = Inr m" "m \<in> insert best (set xs)"
      "key m = Inr km" "bk \<le> km" "\<forall>y \<in> set xs. \<forall>j. key y = Inr j \<longrightarrow> j \<le> km"
      by auto
    with False k show ?thesis by auto
  qed
qed

lemma py_max_total:
  assumes "xs \<noteq> []" and "\<forall>x \<in> set xs. \<exists>k. key x = Inr k"
  shows "\<exists>m km. py_max key xs = Inr m \<and> m \<in> set xs \<and> key m = Inr km
           \<and> (\<forall>x \<in> set xs. \<forall>k. key x = Inr k \<longrightarrow> k \<le> km)"
proof -
  from assms obtain x rest where xs: "xs = x # rest" by (cases xs) auto
  with assms obtain k where k: "key x = Inr k" by auto
  from max_loop_total [of rest key x k] assms xs k
  obtain m km where "max_loop key x k rest = Inr m" "m \<in> insert x (set rest)" "key m = Inr km"
    "k \<le> km" "\<forall>y \<in> set rest. \<forall>j. key y = Inr j \<longrightarrow> j \<le> km"
    by auto
  with xs k show ?thesis by (auto simp: py_max_def)
qed

lemma max_loop_raises:
  assumes "\<exists>x \<in> set xs. key x = Inl e" and "\<forall>x e'. key x = Inl e' \<longrightarrow> e' = e"
  shows "max_loop key best bk xs = Inl e"
  using assms
proof (induction xs arbitrary: best bk)
  case Nil
  then show ?case by simp
next
  case (Cons x xs)
  show ?case
  proof (cases "key x")
    case (Inl e')
    with Cons.prems show ?thesis by auto
  next
    case (Inr k)
    with Cons.prems have "\<exists>y \<in> set xs. key y = Inl e" by auto
    with Cons.IH Cons.prems Inr show ?thesis by simp
  qed
qed

lemma py_max_raises:
  assumes "\<exists>x \<in> set xs. key x = Inl e" and "\<forall>x e'. key x = Inl e' \<longrightarrow> e' = e"
  shows "py_max key xs = Inl e"
proof -
  from assms obtain x rest where xs: "xs = x # rest" by (cases xs) auto
  show ?thesis
  proof (cases "key x")
    case (Inl e')
    with assms xs show ?thesis by (auto simp: py_max_def)
  next
    case (Inr k)
    with assms xs have "\<exists>y \<in> set rest. key y = Inl e" by auto
    from max_loop_raises [OF this assms(2)] xs Inr show ?thesis by (simp add: py_max_def)
  qed
qed

lemma count_alerts_not_Nil:
  "als \<noteq> [] \<Longrightarrow> count_alerts als (bs, bt) = (bs', bt') \<Longrightarrow> bs' \<noteq> [] \<and> bt' \<noteq> []"
proof -
  assume "als \<noteq> []" and c: "count_alerts als (bs, bt) = (bs', bt')"
  then obtain a where "a \<in> set als" by (cases als) auto
  with count_alerts_keys [OF c] have "set (map fst bs') \<noteq> {}" "set (map fst bt') \<noteq> {}"
    by auto
  then show ?thesis by auto
qed

text \<open>
  C9.  For a non-empty list of alerts, \<open>highest_severity\<close> is found by
  \<open>['low', 'medium', 'high', 'critical'].index\<close>.  When every alert's severity is one of
  these four strings the summary is returned and its \<open>highest_severity\<close> is a severity that
  occurs in the list and is maximal for low < medium < high < critical.  When some alert's
  severity is any other string, the call raises \<open>ValueError\<close>.
\<close>

theorem generate_alert_summary_highest_severity:
  assumes "als \<noteq> []"
  shows "((\<forall>a \<in> set als. severity a \<in> set severity_order) \<longrightarrow>
            (\<exists>smry s. generate_alert_summary als = Inr smry \<and> highest_severity smry = Some s
               \<and> s \<in> severity ` set als
               \<and> (\<forall>a \<in> set als. severity_rank (severity a) \<le> severity_rank s)))
       \<and> ((\<exists>a \<in> set als. severity a \<notin> set severity_order) \<longrightarrow>
            generate_alert_summary als = Inl ValueError)"
proof -
  obtain bs bt where c: "count_alerts als ([], []) = (bs, bt)"
    by (cases "count_alerts als ([], [])") auto
  from count_alerts_keys [OF c]
  have keys: "set (map fst bs) = severity ` set als" by simp
  from count_alerts_not_Nil [OF assms c] have ne: "bs \<noteq> []" "bt \<noteq> []" by auto
  have "\<forall>kv \<in> set bt. \<exists>k. (Inr (snd kv) :: py_error + nat) = Inr k" by simp
  from py_max_total [OF ne(2) this]
  obtain m where m: "py_max (\<lambda>kv. Inr (snd kv)) bt = Inr m" by blast
  have gen: "generate_alert_summary als =
      (case map_sum id Some (py_max (list_index severity_order) (map fst bs)) of
         Inl e \<Rightarrow> Inl e
       | Inr highest \<Rightarrow>
           Inr \<lparr>total_alerts = length als, by_severity = bs, by_type = bt,
                most_common_type = Some (fst m), highest_severity = highest\<rparr>)"
    using assms c ne m by (simp add: generate_alert_summary_def)
  have total: "\<exists>smry s. generate_alert_summary als = Inr smry \<and> highest_severity smry = Some s
               \<and> s \<in> severity ` set als
               \<and> (\<forall>a \<in> set als. severity_rank (severity a) \<le> severity_rank s)"
    if valid: "\<forall>a \<in> set als. severity a \<in> set severity_order"
  proof -
    have inr: "\<forall>x \<in> set (map fst bs). \<exists>k. list_index severity_order x = Inr k"
    proof
      fix x assume "x \<in> set (map fst bs)"
      with keys obtain a where "a \<in> set als" "x = severity a" by auto
      with valid have "x \<in> set severity_order" by simp
      then show "\<exists>k. list_index severity_order x = Inr k"
        by (simp add: list_index_severity_order)
    qed
    from ne have "map fst bs \<noteq> []" by simp
    from py_max_total [OF this inr]
    obtain s ks where s: "py_max (list_index severity_order) (map fst bs) = Inr s"
      "s \<in> set (map fst bs)" "list_index severity_order s = Inr ks"
      "\<forall>x \<in> set (map fst bs). \<forall>k. list_index severity_order x = Inr k \<longrightarrow> k \<le> ks"
      by blast
    from s(2) keys valid have "s \<in> set severity_order" by auto
    with s(3) have ks: "ks = severity_rank s" by (simp add: list_index_severity_order)
    have "severity_rank (severity a) \<le> severity_rank s" if "a \<in> set als" for a
    proof -
      from that keys have "severity a \<in> set (map fst bs)" by auto
      moreover from that valid
      have "list_index severity_order (severity a) = Inr (severity_rank (severity a))"
        by (simp add: list_index_severity_order)
      ultimately have "severity_rank (severity a) \<le> ks" using s(4) by blast
      with ks show ?thesis by simp
    qed
    moreover from s(2) keys have "s \<in> severity ` set als" by simp
    moreover from gen s(1)
    have "generate_alert_summary als =
        Inr \<lparr>total_alerts = length als, by_severity = bs, by_type = bt,
             most_common_type = Some (fst m), highest_severity = Some s\<rparr>"
      by simp
    ultimately show ?thesis by simp
  qed
  have raises: "generate_alert_summary als = Inl ValueError"
    if "\<exists>a \<in> set als. severity a \<notin> set severity_order"
  proof -
    from that obtain a where a: "a \<in> set als" "severity a \<notin> set severity_order"
      by blast
    from a(1) keys have "severity a \<in> set (map fst bs)" by auto
    with a(2) have "\<exists>x \<in> set (map fst bs). list_index severity_order x = Inl ValueError"
      using list_index_absent [of "severity a" severity_order] by blast
    moreover have "\<forall>x e'. list_index severity_order x = Inl e' \<longrightarrow> e' = ValueError"
      by (auto dest: list_index_error)
    ultimately have "py_max (list_index severity_order) (map fst bs) = Inl ValueError"
      by (rule py_max_raises)
    with gen show ?thesis by simp
  qed
  from total raises show ?thesis by blast
qed

theorem generate_alert_summary_highest_severity_witness:
  "(\<exists>smry. generate_alert_summary
       [example_alert 1 ''tsunami'' ''high'', example_alert 2 ''flooding'' ''low'',
        example_alert 3 ''tsunami'' ''critical''] = Inr smry
       \<and> highest_severity smry = Some ''critical'')
   \<and> generate_alert_summary
       [example_alert 1 ''tsunami'' ''high'', example_alert 2 ''tsunami'' ''severe'']
     = Inl ValueError"
proof -
  let ?ok = "[example_alert 1 ''tsunami'' ''high'', example_alert 2 ''flooding'' ''low'',
              example_alert 3 ''tsunami'' ''critical'']"
  let ?bad = "[example_alert 1 ''tsunami'' ''high'', example_alert 2 ''tsunami'' ''severe'']"
  have valid: "\<forall>a \<in> set ?ok. severity a \<in> set severity_order"
    by (simp add: example_alert_def severity_order_def)
  have "?ok \<noteq> []" by simp
  from generate_alert_summary_highest_severity [OF this] valid
  obtain smry s where s: "generate_alert_summary ?ok = Inr smry" "highest_severity smry = Some s"
    "s \<in> severity ` set ?ok" "\<forall>a \<in> set ?ok. severity_rank (severity a) \<le> severity_rank s"
    by blast
  from s(4) have "severity_rank ''critical'' \<le> severity_rank s"
    by (simp add: example_alert_def)
  with s(3) have "s = ''critical''"
    by (auto simp: example_alert_def severity_rank_def)
  with s(1,2) have ok: "\<exists>smry. generate_alert_summary ?ok = Inr smry
       \<and> highest_severity smry = Some ''critical''" by blast
  have invalid: "\<exists>a \<in> set ?bad. severity a \<notin> set severity_order"
    by (simp add: example_alert_def severity_order_def)
  have "?bad \<noteq> []" by simp
  from generate_alert_summary_highest_severity [OF this] invalid
  have "generate_alert_summary ?bad = Inl ValueError" by blast
  with ok show ?thesis by blast
qed

section \<open>Properties of the notification fanout\<close>
















section \<open>Properties of the read receipt\<close>

lemma mark_first_keys:
  "map (\<lambda>r. (ua_user_id r, ua_alert_id r)) (mark_first uid aid rs)
     = map (\<lambda>r. (ua_user_id r, ua_alert_id r)) rs"
  by (induction rs) auto

lemma mark_first_find:
  "find (\<lambda>r. ua_user_id r = uid \<and> ua_alert_id r = aid) rs = Some r \<Longrightarrow>
   find (\<lambda>r. ua_user_id r = uid \<and> ua_alert_id r = aid) (mark_first uid aid rs)
     = Some (r\<lparr>is_read := True\<rparr>)"
  by (induction rs) (auto split: if_splits)

lemma mark_first_absent:
  "find (\<lambda>r. ua_user_id r = uid \<and> ua_alert_id r = aid) rs = None \<Longrightarrow> mark_first uid aid rs = rs"
  by (induction rs) (auto split: if_splits)

lemma mark_first_idem: "mark_first uid aid (mark_first uid aid rs) = mark_first uid aid rs"
  by (induction rs) auto

lemma mark_alert_read_user_alerts:
  "user_alerts (mark_alert_read uid aid db) = mark_first uid aid (user_alerts db)"
  by (simp add: mark_alert_read_def mark_first_absent split: option.splits)

lemma mark_alert_read_eq:
  "mark_alert_read uid aid db = db\<lparr>user_alerts := mark_first uid aid (user_alerts db)\<rparr>"
  by (simp add: mark_alert_read_def mark_first_absent split: option.splits)

text \<open>
  C7.  \<open>mark_alert_read\<close> is idempotent; it keeps every row's user and alert, so it creates
  no row (and it leaves the alerts alone); when no row of \<open>user_alerts\<close> is for that user and
  alert the database is unchanged; and when there is one, the row that the query's
  \<open>.first()\<close> finds is afterwards the same row with \<open>is_read = True\<close>, whatever it held.
\<close>

theorem mark_alert_read_idempotent:
  "mark_alert_read uid aid (mark_alert_read uid aid db) = mark_alert_read uid aid db
   \<and> map (\<lambda>r. (ua_user_id r, ua_alert_id r)) (user_alerts (mark_alert_read uid aid db))
       = map (\<lambda>r. (ua_user_id r, ua_alert_id r)) (user_alerts db)
   \<and> alerts (mark_alert_read uid aid db) = alerts db
   \<and> ((\<forall>r \<in> set (user_alerts db). \<not> (ua_user_id r = uid \<and> ua_alert_id r = aid)) \<longrightarrow>
        mark_alert_read uid aid db = db)
   \<and> (\<forall>r. find (\<lambda>r. ua_user_id r = uid \<and> ua_alert_id r = aid) (user_alerts db) = Some r \<longrightarrow>
        find (\<lambda>r. ua_user_id r = uid \<and> ua_alert_id r = aid)
          (user_alerts (mark_alert_read uid aid db)) = Some (r\<lparr>is_read := True\<rparr>))"
proof -
  have "mark_alert_read uid aid (mark_alert_read uid aid db) = mark_alert_read uid aid db"
    by (simp add: mark_alert_read_eq mark_first_idem)
  moreover have "map (\<lambda>r. (ua_user_id r, ua_alert_id r)) (user_alerts (mark_alert_read uid aid db))
       = map (\<lambda>r. (ua_user_id r, ua_alert_id r)) (user_alerts db)"
    by (simp add: mark_alert_read_user_alerts mark_first_keys)
  moreover have "alerts (mark_alert_read uid aid db) = alerts db"
    by (simp add: mark_alert_read_eq)
  moreover have "mark_alert_read uid aid db = db"
    if "\<forall>r \<in> set (user_alerts db). \<not> (ua_user_id r = uid \<and> ua_alert_id r = aid)"
  proof -
    from that
    have "find (\<lambda>r. ua_user_id r = uid \<and> ua_alert_id r = aid) (user_alerts db) = None"
      by (simp add: find_None_iff)
    then show ?thesis by (simp add: mark_alert_read_def)
  qed
  moreover have "find (\<lambda>r. ua_user_id r = uid \<and> ua_alert_id r = aid)
          (user_alerts (mark_alert_read uid aid db)) = Some (r\<lparr>is_read := True\<rparr>)"
    if "find (\<lambda>r. ua_user_id r = uid \<and> ua_alert_id r = aid) (user_alerts db) = Some r" for r
    using that by (simp add: mark_alert_read_user_alerts mark_first_find)
  ultimately show ?thesis by blast
qed

theorem mark_alert_read_idempotent_witness:
  "mark_alert_read 42 7 (empty_database\<lparr>user_alerts :=
       [\<lparr>ua_user_id = 42, ua_alert_id = 7, is_read = True\<rparr>]\<rparr>)
     = empty_database\<lparr>user_alerts := [\<lparr>ua_user_id = 42, ua_alert_id = 7, is_read = True\<rparr>]\<rparr>
   \<and> mark_alert_read 42 7 (empty_database\<lparr>user_alerts :=
       [\<lparr>ua_user_id = 41, ua_alert_id = 7, is_read = False\<rparr>]\<rparr>)
     = empty_database\<lparr>user_alerts := [\<lparr>ua_user_id = 41, ua_alert_id = 7, is_read = False\<rparr>]\<rparr>
   \<and> find (\<lambda>r. ua_user_id r = 42 \<and> ua_alert_id r = 7)
       (user_alerts (mark_alert_read 42 7 (empty_database\<lparr>user_alerts :=
          [\<lparr>ua_user_id = 41, ua_alert_id = 7, is_read = False\<rparr>,
           \<lparr>ua_user_id = 42, ua_alert_id = 7, is_read = False\<rparr>]\<rparr>)))
     = Some \<lparr>ua_user_id = 42, ua_alert_id = 7, is_read = True\<rparr>"
proof -
  let ?read = "empty_database\<lparr>user_alerts := [\<lparr>ua_user_id = 42, ua_alert_id = 7, is_read = True\<rparr>]\<rparr>"
  let ?other = "empty_database\<lparr>user_alerts := [\<lparr>ua_user_id = 41, ua_alert_id = 7, is_read = False\<rparr>]\<rparr>"
  let ?two = "empty_database\<lparr>user_alerts :=
          [\<lparr>ua_user_id = 41, ua_alert_id = 7, is_read = False\<rparr>,
           \<lparr>ua_user_id = 42, ua_alert_id = 7, is_read = False\<rparr>]\<rparr>"
  have one: "mark_alert_read 42 7 ?read = ?read"
    by (simp add: mark_alert_read_def empty_database_def)
  have "\<forall>r \<in> set (user_alerts ?other). \<not> (ua_user_id r = 42 \<and> ua_alert_id r = 7)"
    by (simp add: empty_database_def)
  with mark_alert_read_idempotent [of 42 7 ?other]
  have two: "mark_alert_read 42 7 ?other = ?other" by blast
  have "find (\<lambda>r. ua_user_id r = 42 \<and> ua_alert_id r = 7) (user_alerts ?two)
          = Some \<lparr>ua_user_id = 42, ua_alert_id = 7, is_read = False\<rparr>"
    by (simp add: empty_database_def)
  with mark_alert_read_idempotent [of 42 7 ?two]
  have "find (\<lambda>r. ua_user_id r = 42 \<and> ua_alert_id r = 7) (user_alerts (mark_alert_read 42 7 ?two))
          = Some (\<lparr>ua_user_id = 42, ua_alert_id = 7, is_read = False\<rparr>\<lparr>is_read := True\<rparr>)"
    by blast
  with one two show ?thesis by simp
qed

section \<open>Properties of the alert lifecycle\<close>

lemma kept_refl: "kept xs xs"
  by (simp add: kept_def)

lemma kept_append: "kept xs (xs @ zs)"
  by (simp add: kept_def nth_append)

lemma kept_trans:
  assumes "kept xs ys" and "kept ys zs"
  shows "kept xs zs"
  unfolding kept_def
proof (intro conjI allI impI)
  from assms show "length xs \<le> length zs" by (simp add: kept_def)
next
  fix i assume i: "i < length xs"
  with assms have "i < length ys" by (simp add: kept_def)
  with assms have z: "zs ! i = ys ! i \<or> zs ! i = (ys ! i)\<lparr>is_active := False\<rparr>"
    by (simp add: kept_def)
  from assms i have y: "ys ! i = xs ! i \<or> ys ! i = (xs ! i)\<lparr>is_active := False\<rparr>"
    by (simp add: kept_def)
  from y z show "zs ! i = xs ! i \<or> zs ! i = (xs ! i)\<lparr>is_active := False\<rparr>"
    by auto
qed

lemma notify_users_alerts:
  "alerts (fst (notify_users sv a db evs)) = alerts db
   \<and> alert_seq (fst (notify_users sv a db evs)) = alert_seq db"
  by (simp add: notify_users_def Let_def split: prod.splits sum.splits)

lemma create_alert_alerts:
  "alerts (fst (snd (create_alert sv t1 t2 ty ti me se ar so db)))
     = alerts db @ [fst (create_alert sv t1 t2 ty ti me se ar so db)]"
proof -
  let ?a = "\<lparr>alert_id = Suc (alert_seq db), alert_type = ty, title = ti,
               message = me, affected_area = ar, severity = se,
               source = so, is_active = True, created_at = t1,
               expires_at = t2 + hours 24\<rparr>"
  let ?db1 = "db\<lparr>alerts := alerts db @ [?a], alert_seq := Suc (alert_seq db)\<rparr>"
  obtain db2 evs1 where n: "notify_users sv ?a ?db1 [] = (db2, evs1)"
    by (cases "notify_users sv ?a ?db1 []") auto
  from notify_users_alerts [of sv ?a ?db1 "[]"] n have "alerts db2 = alerts db @ [?a]" by simp
  with n show ?thesis by (simp add: create_alert_def Let_def)
qed

lemma create_alert_fields:
  "fst (create_alert sv t1 t2 ty ti me se ar so db)
     = \<lparr>alert_id = Suc (alert_seq db), alert_type = ty, title = ti,
               message = me, affected_area = ar, severity = se,
               source = so, is_active = True, created_at = t1,
               expires_at = t2 + hours 24\<rparr>"
  by (simp add: create_alert_def Let_def split: prod.splits)

lemma generate_alert_from_report_unbound:
  "generate_alert_from_report sv now t1 t2 report db =
     (None, db, if report_severity report \<in> set [''high'', ''critical'']
                then [Printed ''Error generating alert from report''] else [])"
  by (simp add: generate_alert_from_report_def load_name_def alert_service_globals_def)

lemma notify_affected_users_alerts:
  "alerts (fst (notify_affected_users a db evs)) = alerts db
   \<and> alert_seq (fst (notify_affected_users a db evs)) = alert_seq db"
  by (simp add: notify_affected_users_def split: sum.splits)

lemma store_alerts_kept: "kept (alerts db) (alerts (fst (store_alerts ds db evs)))"
proof (induction ds arbitrary: db evs)
  case Nil
  show ?case by (simp add: kept_refl)
next
  case (Cons d ds)
  show ?case
  proof (cases "find (\<lambda>a. alert_type a = ad_alert_type d \<and> title a = ad_title d
                            \<and> source a = ''incois'') (alerts db)")
    case (Some existing)
    with Cons.IH [of db evs] show ?thesis by simp
  next
    case None
    let ?a = "\<lparr>alert_id = Suc (alert_seq db), alert_type = ad_alert_type d,
                    title = ad_title d, message = ad_message d,
                    affected_area = ad_affected_area d, severity = ad_severity d,
                    source = ad_source d, is_active = True, created_at = ad_created_at d,
                    expires_at = ad_expires_at d\<rparr>"
    let ?db1 = "db\<lparr>alerts := alerts db @ [?a], alert_seq := Suc (alert_seq db)\<rparr>"
    obtain db2 evs1 where n: "notify_affected_users ?a ?db1 evs = (db2, evs1)"
      by (cases "notify_affected_users ?a ?db1 evs") auto
    from notify_affected_users_alerts [of ?a ?db1 evs] n
    have "alerts db2 = alerts db @ [?a]" by simp
    then have "kept (alerts db) (alerts db2)" by (simp add: kept_append)
    moreover from Cons.IH [of db2 evs1]
    have "kept (alerts db2) (alerts (fst (store_alerts ds db2 evs1)))" .
    ultimately have "kept (alerts db) (alerts (fst (store_alerts ds db2 evs1)))"
      by (rule kept_trans)
    with None n show ?thesis by (simp add: Let_def)
  qed
qed

lemma cleanup_expired_alerts_kept: "kept (alerts db) (alerts (cleanup_expired_alerts now db))"
  by (simp add: kept_def cleanup_expired_alerts_def)

lemma alert_step_kept: "alert_step db db' \<Longrightarrow> kept (alerts db) (alerts db')"
proof (induction rule: alert_step.induct)
  case (step_create sv t1 t2 ty ti me se ar so db)
  show ?case by (simp add: create_alert_alerts kept_append)
next
  case (step_report sv now t1 t2 report db)
  show ?case by (simp add: generate_alert_from_report_unbound kept_refl)
next
  case (step_store ds db evs)
  show ?case by (rule store_alerts_kept)
next
  case (step_cleanup now db)
  show ?case by (rule cleanup_expired_alerts_kept)
next
  case (step_read uid aid db)
  show ?case by (simp add: mark_alert_read_eq kept_refl)
qed

lemma alert_run_kept: "alert_run db db' \<Longrightarrow> kept (alerts db) (alerts db')"
  unfolding alert_run_def
proof (induction rule: rtranclp_induct)
  case base
  show ?case by (rule kept_refl)
next
  case (step y z)
  from step.IH alert_step_kept [OF step.hyps(2)] show ?case by (rule kept_trans)
qed

text \<open>
  C6, as the code has it.  \<open>create_alert\<close> appends an alert with \<open>is_active = True\<close>,
  \<open>created_at\<close> the first clock reading and \<open>expires_at\<close> the second clock reading plus
  24 hours, so \<open>expires_at\<close> is at least \<open>created_at\<close> + 24h when the clock did not go back
  between the readings.  The cleanup sweep changes no row's place and leaves every alert
  that was active with \<open>expires_at < now\<close> inactive.  Through any sequence of operations
  every row stays in the table at its place with its identity, and a row that is inactive
  stays inactive.
\<close>

theorem alert_lifecycle:
  "(let a = fst (create_alert sv t1 t2 ty ti me se ar so db) in
      is_active a \<and> created_at a = t1 \<and> expires_at a = t2 + hours 24
      \<and> (t1 \<le> t2 \<longrightarrow> created_at a + hours 24 \<le> expires_at a)
      \<and> alerts (fst (snd (create_alert sv t1 t2 ty ti me se ar so db))) = alerts db @ [a])
   \<and> length (alerts (cleanup_expired_alerts now db)) = length (alerts db)
   \<and> (\<forall>i < length (alerts db).
        is_active (alerts db ! i) \<and> expires_at (alerts db ! i) < now \<longrightarrow>
        \<not> is_active (alerts (cleanup_expired_alerts now db) ! i))
   \<and> (alert_run db db' \<longrightarrow>
        length (alerts db) \<le> length (alerts db')
        \<and> (\<forall>i < length (alerts db).
             alert_id (alerts db' ! i) = alert_id (alerts db ! i)
             \<and> (\<not> is_active (alerts db ! i) \<longrightarrow> \<not> is_active (alerts db' ! i))))"
proof -
  have create: "let a = fst (create_alert sv t1 t2 ty ti me se ar so db) in
      is_active a \<and> created_at a = t1 \<and> expires_at a = t2 + hours 24
      \<and> (t1 \<le> t2 \<longrightarrow> created_at a + hours 24 \<le> expires_at a)
      \<and> alerts (fst (snd (create_alert sv t1 t2 ty ti me se ar so db))) = alerts db @ [a]"
    using create_alert_alerts [of sv t1 t2 ty ti me se ar so db]
    by (simp add: Let_def create_alert_fields)
  have len: "length (alerts (cleanup_expired_alerts now db)) = length (alerts db)"
    by (simp add: cleanup_expired_alerts_def)
  have sweep: "\<forall>i < length (alerts db).
        is_active (alerts db ! i) \<and> expires_at (alerts db ! i) < now \<longrightarrow>
        \<not> is_active (alerts (cleanup_expired_alerts now db) ! i)"
    by (simp add: cleanup_expired_alerts_def)
  have run: "length (alerts db) \<le> length (alerts db')
        \<and> (\<forall>i < length (alerts db).
             alert_id (alerts db' ! i) = alert_id (alerts db ! i)
             \<and> (\<not> is_active (alerts db ! i) \<longrightarrow> \<not> is_active (alerts db' ! i)))"
    if "alert_run db db'"
  proof -
    from alert_run_kept [OF that] have k: "kept (alerts db) (alerts db')" .
    then have "length (alerts db) \<le> length (alerts db')" by (simp add: kept_def)
    moreover have "alert_id (alerts db' ! i) = alert_id (alerts db ! i)
             \<and> (\<not> is_active (alerts db ! i) \<longrightarrow> \<not> is_active (alerts db' ! i))"
      if "i < length (alerts db)" for i
    proof -
      from k that
      have "alerts db' ! i = alerts db ! i \<or> alerts db' ! i = (alerts db ! i)\<lparr>is_active := False\<rparr>"
        by (simp add: kept_def)
      then show ?thesis by auto
    qed
    ultimately show ?thesis by blast
  qed
  from create len sweep run show ?thesis by blast
qed

text \<open>
  A run for the witness: an alert is created at time 0 (both clock readings), the sweep runs
  at 24 hours and one microsecond, then a second alert is created and the sweep runs again.
\<close>

theorem alert_lifecycle_witness:
  "(let db1 = fst (snd (create_alert all_up 0 0 ''tsunami'' ''Tsunami Alert'' ''Move'' ''high'' None
                       ''system'' empty_database));
        db2 = cleanup_expired_alerts (hours 24 + 1) db1;
        db3 = cleanup_expired_alerts (hours 30)
                (fst (snd (create_alert all_up (hours 25) (hours 25) ''tsunami'' ''Tsunami Alert''
                   ''Move'' ''high'' None ''system'' db2)))
    in is_active (alerts db1 ! 0) \<and> expires_at (alerts db1 ! 0) = hours 24
       \<and> \<not> is_active (alerts db2 ! 0) \<and> alert_run db2 db3 \<and> \<not> is_active (alerts db3 ! 0)
       \<and> length (alerts db3) = 2)"
proof -
  define db1 where "db1 = fst (snd (create_alert all_up 0 0 ''tsunami'' ''Tsunami Alert'' ''Move''
                       ''high'' None ''system'' empty_database))"
  define db2 where "db2 = cleanup_expired_alerts (hours 24 + 1) db1"
  define db2' where "db2' = fst (snd (create_alert all_up (hours 25) (hours 25) ''tsunami''
                   ''Tsunami Alert'' ''Move'' ''high'' None ''system'' db2))"
  define db3 where "db3 = cleanup_expired_alerts (hours 30) db2'"
  have a1: "alerts db1 = [fst (create_alert all_up 0 0 ''tsunami'' ''Tsunami Alert'' ''Move''
                       ''high'' None ''system'' empty_database)]"
    using alert_lifecycle [of all_up 0 0 "''tsunami''" "''Tsunami Alert''" "''Move''" "''high''"
        None "''system''" empty_database]
    by (simp add: Let_def db1_def empty_database_def)
  have f1: "is_active (alerts db1 ! 0) \<and> expires_at (alerts db1 ! 0) = hours 24"
    using alert_lifecycle [of all_up 0 0 "''tsunami''" "''Tsunami Alert''" "''Move''" "''high''"
        None "''system''" empty_database] a1
    by (simp add: Let_def)
  have "0 < length (alerts db1)" using a1 by simp
  moreover have "expires_at (alerts db1 ! 0) < hours 24 + 1" using f1 by simp
  ultimately have f2: "\<not> is_active (alerts db2 ! 0)"
    using alert_lifecycle [of all_up 0 0 "[]" "[]" "[]" "[]" None "[]" db1 "hours 24 + 1"] f1
    unfolding db2_def by blast
  have l2: "length (alerts db2) = 1"
    using alert_lifecycle [of all_up 0 0 "[]" "[]" "[]" "[]" None "[]" db1 "hours 24 + 1"] a1
    unfolding db2_def by simp
  have "alert_step db2 db2'" unfolding db2'_def by (rule alert_step.step_create)
  moreover have "alert_step db2' db3" unfolding db3_def by (rule alert_step.step_cleanup)
  ultimately have run: "alert_run db2 db3" unfolding alert_run_def by auto
  with alert_lifecycle [of all_up 0 0 "[]" "[]" "[]" "[]" None "[]" db2 0 db3] f2 l2
  have f3: "\<not> is_active (alerts db3 ! 0)" by simp
  have "alerts db2' = alerts db2 @ [fst (create_alert all_up (hours 25) (hours 25) ''tsunami''
                   ''Tsunami Alert'' ''Move'' ''high'' None ''system'' db2)]"
    using alert_lifecycle [of all_up "hours 25" "hours 25" "''tsunami''" "''Tsunami Alert''"
        "''Move''" "''high''" None "''system''" db2]
    by (simp add: Let_def db2'_def)
  with l2 have "length (alerts db2') = 2" by simp
  then have l3: "length (alerts db3) = 2" by (simp add: db3_def cleanup_expired_alerts_def)
  from f1 f2 run f3 l3 show ?thesis
    unfolding Let_def db1_def [symmetric] db2_def [symmetric] db2'_def [symmetric]
      db3_def [symmetric]
    by simp
qed

text \<open>
  C6 as stated fails when the clock moves between the two readings of \<open>create_alert\<close>: read
  at 0 and then at 1 microsecond, \<open>expires_at\<close> is not \<open>created_at\<close> + 24h.
\<close>

theorem create_alert_expiry_counterexample:
  "expires_at (fst (create_alert all_up 0 1 ''tsunami'' ''Tsunami Alert'' ''Move'' ''high'' None
                     ''system'' empty_database))
   \<noteq> created_at (fst (create_alert all_up 0 1 ''tsunami'' ''Tsunami Alert'' ''Move'' ''high'' None
                     ''system'' empty_database)) + hours 24"
  by (simp add: create_alert_fields)

section \<open>Alerts from reports\<close>

text \<open>
  C1 at a concrete input.  The table holds an active crowdsourced tsunami alert created
  at time 0; ten minutes later a verified report of a tsunami with severity high arrives.
  The existing alert is inside the one-hour window, yet the call returns \<open>None\<close>, not that
  alert: reading the unbound name \<open>db\<close> raises \<open>NameError\<close>, which the handler prints.
\<close>

theorem generate_alert_from_report_returns_None:
  "report_severity tsunami_report \<in> set [''high'', ''critical'']
   \<and> find (\<lambda>a. alert_type a = hazard_type tsunami_report \<and> source a = ''crowdsourced''
               \<and> is_active a \<and> minutes 10 - hours 1 \<le> created_at a) (alerts tsunami_database)
       = Some tsunami_alert
   \<and> generate_alert_from_report all_up (minutes 10) (minutes 10) (minutes 10) tsunami_report
       tsunami_database
       = (None, tsunami_database, [Printed ''Error generating alert from report''])"
  by (simp add: generate_alert_from_report_def load_name_def alert_service_globals_def
      tsunami_report_def tsunami_database_def tsunami_alert_def empty_database_def
      minutes_def hours_def)

section \<open>Properties of the hazard probability\<close>

lemma pattern_loop_eq:
  "pattern_loop ps text p = p + (if list_ex (\<lambda>q. re_search q text) ps then 0.2 else 0)"
  by (induction ps) auto

lemma pattern_matching_eq:
  "pattern_matching gs text p
     = p + 0.2 * real (length (filter (\<lambda>(htype, patterns). list_ex (\<lambda>q. re_search q text) patterns) gs))"
proof (induction gs arbitrary: p)
  case Nil
  show ?case by simp
next
  case (Cons g gs)
  obtain htype patterns where g: "g = (htype, patterns)" by (cases g) auto
  show ?case
    unfolding g by (simp add: Cons.IH pattern_loop_eq algebra_simps)
qed

lemma pattern_matching_hazard_patterns:
  "pattern_matching hazard_patterns text p = p + 0.2 * real (matched_groups text)"
  by (simp add: pattern_matching_eq matched_groups_def)

lemma matched_groups_le: "matched_groups text \<le> 5"
proof -
  have "matched_groups text \<le> length hazard_patterns"
    unfolding matched_groups_def by (rule length_filter_le)
  also have "length hazard_patterns = 5" by (simp add: hazard_patterns_def)
  finally show ?thesis .
qed

lemma calculate_hazard_probability_eq:
  "calculate_hazard_probability vader text kws =
     (if text = [] then 0
      else min ((if kws \<noteq> [] then 0.3 else 0)
                + 0.2 * real (matched_groups text)
                + min (real (urgency_count text) * 0.1) 0.3
                + (if calculate_sentiment vader text < - 0.1 then 0.2 else 0)) 1)"
  by (simp add: calculate_hazard_probability_def Let_def pattern_matching_hazard_patterns)

lemma calculate_hazard_probability_range:
  "0 \<le> calculate_hazard_probability vader text kws
   \<and> calculate_hazard_probability vader text kws \<le> 1"
proof -
  have "0 \<le> (if kws \<noteq> [] then 0.3 else 0)
                + 0.2 * real (matched_groups text)
                + min (real (urgency_count text) * 0.1) 0.3
                + (if calculate_sentiment vader text < - 0.1 then 0.2 else (0::real))"
    by simp
  then show ?thesis
    by (simp add: calculate_hazard_probability_eq)
qed

lemma keywords_give_base:
  assumes "text \<noteq> []" and "kws \<noteq> []"
  shows "0.3 \<le> calculate_hazard_probability vader text kws"
proof -
  have "0 \<le> 0.2 * real (matched_groups text)
                + min (real (urgency_count text) * 0.1) 0.3
                + (if calculate_sentiment vader text < - 0.1 then 0.2 else (0::real))"
    by simp
  with assms show ?thesis
    by (simp add: calculate_hazard_probability_eq)
qed

text \<open>
  C2, as the code has it.  The pattern loops add 0.2 once for each hazard type that has at
  least one matching pattern (the \<open>break\<close> leaves only the loop over that type's patterns):
  never more than once per hazard type, and up to five times in total.  The whole
  probability is the capped sum written out below.
\<close>

theorem pattern_bonus_once_per_hazard_type:
  "pattern_matching hazard_patterns text p = p + 0.2 * real (matched_groups text)
   \<and> matched_groups text \<le> 5
   \<and> calculate_hazard_probability vader text kws =
       (if text = [] then 0
        else min ((if kws \<noteq> [] then 0.3 else 0)
                  + 0.2 * real (matched_groups text)
                  + min (real (urgency_count text) * 0.1) 0.3
                  + (if calculate_sentiment vader text < - 0.1 then 0.2 else 0)) 1)"
  using pattern_matching_hazard_patterns [of "text" p] matched_groups_le [of "text"]
    calculate_hazard_probability_eq [of vader "text" kws]
  by simp

lemma matched_groups_tsunami_flood: "matched_groups ''tsunami flood'' = 2"
  by code_simp

lemma urgency_count_tsunami_flood: "urgency_count ''tsunami flood'' = 0"
  by code_simp

text \<open>
  C2 as stated fails on the text \<open>tsunami flood\<close>: a tsunami pattern and a flooding pattern
  match, the loops add 0.4, and the probability is 0.3 + 0.4.
\<close>

theorem pattern_bonus_counterexample:
  "pattern_matching hazard_patterns ''tsunami flood'' 0 = 0.4
   \<and> calculate_hazard_probability neutral_vader ''tsunami flood'' [''tsunami'', ''flooding''] = 0.7"
  by (simp add: pattern_matching_hazard_patterns calculate_hazard_probability_eq
      matched_groups_tsunami_flood urgency_count_tsunami_flood calculate_sentiment_def
      neutral_vader_def)

lemma polarity_compound_range:
  "- 1 \<le> polarity_compound analyzer t \<and> polarity_compound analyzer t \<le> 1"
  using Rep_compound_score [of "analyzer t"] by (simp add: polarity_compound_def)

lemma calculate_sentiment_range:
  "- 1 \<le> calculate_sentiment (polarity_compound analyzer) t
   \<and> calculate_sentiment (polarity_compound analyzer) t \<le> 1"
  using polarity_compound_range [of analyzer t] by (simp add: calculate_sentiment_def)

text \<open>
  C3.  For every text, the empty one included, and whatever the keyword list and the
  sentiment library return, the hazard probability lies in [0, 1].  The sentiment score
  of the empty text is 0, and of any other text it is the compound score of the sentiment
  library, which the spec places in [-1, 1]: with such an analyzer the sentiment score of
  every text lies in [-1, 1].  The same holds for the two scores of an analysed post.
\<close>

theorem scores_in_range:
  "0 \<le> calculate_hazard_probability vader text kws
   \<and> calculate_hazard_probability vader text kws \<le> 1
   \<and> - 1 \<le> calculate_sentiment (polarity_compound analyzer) text
   \<and> calculate_sentiment (polarity_compound analyzer) text \<le> 1
   \<and> calculate_sentiment vader [] = 0
   \<and> calculate_hazard_probability vader [] kws = 0
   \<and> 0 \<le> hazard_probability (analyze_post vader d)
   \<and> hazard_probability (analyze_post vader d) \<le> 1
   \<and> - 1 \<le> sentiment_score (analyze_post (polarity_compound analyzer) d)
   \<and> sentiment_score (analyze_post (polarity_compound analyzer) d) \<le> 1"
proof -
  have "calculate_sentiment vader [] = 0" by (simp add: calculate_sentiment_def)
  moreover have "calculate_hazard_probability vader [] kws = 0"
    by (simp add: calculate_hazard_probability_def)
  moreover have "sentiment_score (analyze_post (polarity_compound analyzer) d)
      = calculate_sentiment (polarity_compound analyzer) (preprocess_text (pd_content d))"
    by (simp add: analyze_post_def Let_def)
  moreover have "hazard_probability (analyze_post vader d)
      = calculate_hazard_probability vader (preprocess_text (pd_content d))
          (extract_hazard_keywords (preprocess_text (pd_content d)))"
    by (simp add: analyze_post_def Let_def)
  ultimately show ?thesis
    using calculate_hazard_probability_range calculate_sentiment_range by simp
qed

section \<open>Properties of ingestion\<close>

lemma find_stored_for:
  "find (\<lambda>p. platform p = pd_platform d \<and> post_id p = pd_post_id d) store = None
     \<longleftrightarrow> stored_for d store = []"
  by (auto simp: find_None_iff stored_for_def filter_empty_conv)

lemma stored_for_analyze_post: "stored_for d [analyze_post vader d] = [analyze_post vader d]"
  by (simp add: stored_for_def analyze_post_def Let_def)

lemma stored_for_append: "stored_for d (xs @ ys) = stored_for d xs @ stored_for d ys"
  by (simp add: stored_for_def)

lemma process_single_post_existing:
  "stored_for d store \<noteq> [] \<Longrightarrow> process_single_post vader rd d store = (store, [])"
proof -
  assume "stored_for d store \<noteq> []"
  then obtain e where
    "find (\<lambda>p. platform p = pd_platform d \<and> post_id p = pd_post_id d) store = Some e"
    using find_stored_for [of d store] by (cases "find (\<lambda>p. platform p = pd_platform d \<and> post_id p = pd_post_id d) store") auto
  then show ?thesis by (simp add: process_single_post_def)
qed

lemma process_single_post_new:
  "stored_for d store = [] \<Longrightarrow>
   fst (process_single_post vader rd d store)
     = (if hazard_probability (analyze_post vader d) > 0.2 then store @ [analyze_post vader d]
        else store)"
  using find_stored_for [of d store] by (simp add: process_single_post_def Let_def)

lemma process_single_post_low:
  "hazard_probability (analyze_post vader d) \<le> 0.2 \<Longrightarrow>
   fst (process_single_post vader rd d store) = store"
  by (cases "stored_for d store = []")
    (simp_all add: process_single_post_new process_single_post_existing)

lemma process_single_post_twice:
  "fst (process_single_post vader rd' d (fst (process_single_post vader rd d store)))
     = fst (process_single_post vader rd d store)"
proof (cases "stored_for d store = []")
  case False
  then show ?thesis by (simp add: process_single_post_existing)
next
  case True
  show ?thesis
  proof (cases "hazard_probability (analyze_post vader d) > 0.2")
    case high: True
    with True have s: "fst (process_single_post vader rd d store) = store @ [analyze_post vader d]"
      by (simp add: process_single_post_new)
    have "stored_for d (store @ [analyze_post vader d]) \<noteq> []"
      by (simp add: stored_for_append stored_for_analyze_post)
    then show ?thesis unfolding s by (simp add: process_single_post_existing)
  next
    case low: False
    with True show ?thesis by (simp add: process_single_post_new)
  qed
qed

lemma hazard_probability_analyze_post:
  "hazard_probability (analyze_post vader d)
     = calculate_hazard_probability vader (preprocess_text (pd_content d))
         (extract_hazard_keywords (preprocess_text (pd_content d)))"
  by (simp add: analyze_post_def Let_def)

lemma preprocess_tsunami_post:
  "preprocess_text (pd_content tsunami_post)
     = ''tsunami warning issued for coastal areas. evacuate immediately!''"
  by code_simp

lemma keywords_tsunami_post:
  "extract_hazard_keywords ''tsunami warning issued for coastal areas. evacuate immediately!'' \<noteq> []"
  by code_simp

lemma tsunami_post_probability: "hazard_probability (analyze_post vader tsunami_post) > 0.2"
proof -
  have "0.3 \<le> hazard_probability (analyze_post vader tsunami_post)"
    unfolding hazard_probability_analyze_post preprocess_tsunami_post
    by (rule keywords_give_base) (simp_all add: keywords_tsunami_post)
  then show ?thesis by simp
qed

lemma preprocess_beach_post:
  "preprocess_text (pd_content beach_post)
     = ''beautiful sunny day at the beach. perfect for swimming.''"
  by code_simp

lemma keywords_beach_post:
  "extract_hazard_keywords ''beautiful sunny day at the beach. perfect for swimming.'' = []"
  by code_simp

lemma matched_groups_beach_post:
  "matched_groups ''beautiful sunny day at the beach. perfect for swimming.'' = 0"
  by code_simp

lemma urgency_count_beach_post:
  "urgency_count ''beautiful sunny day at the beach. perfect for swimming.'' = 0"
  by code_simp

lemma beach_post_probability: "hazard_probability (analyze_post neutral_vader beach_post) = 0"
  unfolding hazard_probability_analyze_post preprocess_beach_post
  by (simp add: calculate_hazard_probability_eq keywords_beach_post matched_groups_beach_post
      urgency_count_beach_post calculate_sentiment_def neutral_vader_def)

text \<open>
  C4.  Processing a post whose platform and post id already have a row in the store changes
  nothing and publishes nothing.  Processing the same post a second time leaves the store
  as the first processing left it.  When the store had no row for the post and the
  first processing stored it, or when the store had exactly one row for it, the store holds
  exactly one row for that platform and post id after the post was processed twice.
\<close>

theorem process_single_post_idempotent:
  "(stored_for d store \<noteq> [] \<longrightarrow> process_single_post vader rd d store = (store, []))
   \<and> fst (process_single_post vader rd' d (fst (process_single_post vader rd d store)))
       = fst (process_single_post vader rd d store)
   \<and> (stored_for d store = [] \<and> stored_for d (fst (process_single_post vader rd d store)) \<noteq> [] \<longrightarrow>
        length (stored_for d
          (fst (process_single_post vader rd' d (fst (process_single_post vader rd d store))))) = 1)
   \<and> (length (stored_for d store) = 1 \<longrightarrow>
        length (stored_for d
          (fst (process_single_post vader rd' d (fst (process_single_post vader rd d store))))) = 1)"
proof -
  have fresh: "length (stored_for d (fst (process_single_post vader rd d store))) = 1"
    if "stored_for d store = []" "stored_for d (fst (process_single_post vader rd d store)) \<noteq> []"
  proof (cases "hazard_probability (analyze_post vader d) > 0.2")
    case True
    with that(1) show ?thesis
      by (simp add: process_single_post_new stored_for_append stored_for_analyze_post)
  next
    case False
    with that show ?thesis by (simp add: process_single_post_new)
  qed
  have present: "length (stored_for d (fst (process_single_post vader rd d store))) = 1"
    if "length (stored_for d store) = 1"
  proof -
    from that have "stored_for d store \<noteq> []" by auto
    with that show ?thesis by (simp add: process_single_post_existing)
  qed
  from fresh present show ?thesis
    by (simp add: process_single_post_twice process_single_post_existing)
qed

theorem process_single_post_idempotent_witness:
  "stored_for tsunami_post [] = []
   \<and> stored_for tsunami_post (fst (process_single_post neutral_vader False tsunami_post [])) \<noteq> []
   \<and> process_single_post neutral_vader False tsunami_post
        (fst (process_single_post neutral_vader False tsunami_post []))
       = (fst (process_single_post neutral_vader False tsunami_post []), [])
   \<and> length (stored_for tsunami_post
        (fst (process_single_post neutral_vader False tsunami_post
           (fst (process_single_post neutral_vader False tsunami_post []))))) = 1"
proof -
  let ?s1 = "fst (process_single_post neutral_vader False tsunami_post [])"
  have e: "stored_for tsunami_post [] = []" by (simp add: stored_for_def)
  have "?s1 = [analyze_post neutral_vader tsunami_post]"
    using tsunami_post_probability [of neutral_vader] e
    by (simp add: process_single_post_new)
  then have s: "stored_for tsunami_post ?s1 \<noteq> []"
    by (simp add: stored_for_analyze_post)
  from process_single_post_idempotent [of tsunami_post ?s1 neutral_vader False False] s
  have noop: "process_single_post neutral_vader False tsunami_post ?s1 = (?s1, [])" by blast
  from process_single_post_idempotent [of tsunami_post "[]" neutral_vader False False] e s
  have "length (stored_for tsunami_post
        (fst (process_single_post neutral_vader False tsunami_post ?s1))) = 1"
    by blast
  with e s noop show ?thesis by blast
qed

text \<open>
  C5.  For a post that has no row in the store yet (one that gets analysed), the store
  gains the analysed post exactly when its hazard probability is above 0.2, and then a row
  for the post exists; a post whose hazard probability is at most 0.2 leaves the store
  unchanged.
\<close>

theorem process_single_post_threshold:
  "(stored_for d store = [] \<longrightarrow>
      (fst (process_single_post vader rd d store) = store @ [analyze_post vader d]
         \<longleftrightarrow> hazard_probability (analyze_post vader d) > 0.2)
      \<and> (stored_for d (fst (process_single_post vader rd d store)) \<noteq> []
         \<longleftrightarrow> hazard_probability (analyze_post vader d) > 0.2))
   \<and> (hazard_probability (analyze_post vader d) \<le> 0.2 \<longrightarrow>
        fst (process_single_post vader rd d store) = store)"
proof -
  have "(fst (process_single_post vader rd d store) = store @ [analyze_post vader d]
         \<longleftrightarrow> hazard_probability (analyze_post vader d) > 0.2)
      \<and> (stored_for d (fst (process_single_post vader rd d store)) \<noteq> []
         \<longleftrightarrow> hazard_probability (analyze_post vader d) > 0.2)"
    if "stored_for d store = []"
    using that
    by (simp add: process_single_post_new stored_for_append stored_for_analyze_post)
  then show ?thesis using process_single_post_low [of vader d rd store] by blast
qed

theorem process_single_post_threshold_witness:
  "stored_for tsunami_post [] = []
   \<and> hazard_probability (analyze_post neutral_vader tsunami_post) > 0.2
   \<and> fst (process_single_post neutral_vader False tsunami_post [])
       = [analyze_post neutral_vader tsunami_post]
   \<and> hazard_probability (analyze_post neutral_vader beach_post) \<le> 0.2
   \<and> fst (process_single_post neutral_vader False beach_post []) = []"
proof -
  have e: "stored_for tsunami_post [] = []" by (simp add: stored_for_def)
  have hi: "hazard_probability (analyze_post neutral_vader tsunami_post) > 0.2"
    by (rule tsunami_post_probability)
  have lo: "hazard_probability (analyze_post neutral_vader beach_post) \<le> 0.2"
    by (simp add: beach_post_probability)
  from process_single_post_threshold [of tsunami_post "[]" neutral_vader False] e hi
  have "fst (process_single_post neutral_vader False tsunami_post [])
       = [] @ [analyze_post neutral_vader tsunami_post]" by blast
  moreover from process_single_post_threshold [of beach_post "[]" neutral_vader False] lo
  have "fst (process_single_post neutral_vader False beach_post []) = []" by blast
  ultimately show ?thesis using e hi lo by simp
qed

section \<open>Properties of report creation\<close>










end
